theory Spec2Isabelle
  imports Complex_Main
begin

section \<open>Statistics utilities of the pachislot counter\<close>

text \<open>
  The module \<^verbatim>\<open>statistics_utils.py\<close> is embedded function by function. Python's
  \<^verbatim>\<open>int\<close> is \<^typ>\<open>int\<close>; a Python \<^verbatim>\<open>float\<close> is idealised as a \<^typ>\<open>real\<close>, so
  rounding, overflow, infinities and NaN are outside the model. A call that raises is a
  value \<open>Inl e\<close> of the result type; a call that returns \<open>v\<close> is \<open>Inr v\<close>.
  \<open>ValueError\<close> and \<open>ZeroDivisionError\<close> are the two exceptions of Python that the
  module can raise. \<open>NonFinite\<close> is no exception: it marks a call whose float is an
  infinity or NaN, which has no real value, so the model says nothing about that call.
\<close>

datatype error = ValueError | ZeroDivisionError | NonFinite

subsection \<open>Library functions\<close>

text \<open>
  Modelled from the spec: \<^verbatim>\<open>scipy.stats.binom.pmf(k, n, p)\<close> is a library function, not
  part of the repository. It is the binomial PMF at \<open>k\<close> given \<open>(n, p)\<close> of the
  specification: the probability of \<open>k\<close> successes in \<open>n\<close> independent trials of success
  probability \<open>p\<close>, zero outside the support \<open>0 \<le> k \<le> n\<close>. The module calls it only
  with \<open>0 < n\<close> and \<open>0 < p < 1\<close>.
\<close>

definition binom_pmf :: "int \<Rightarrow> int \<Rightarrow> real \<Rightarrow> real" where
  "binom_pmf k n p =
     (if 0 \<le> k \<and> k \<le> n
      then real (nat n choose nat k) * p ^ nat k * (1 - p) ^ (nat n - nat k)
      else 0)"

text \<open>
  Modelled from the spec: \<^verbatim>\<open>scipy.stats.binomtest(k, n, p, alternative='two-sided')\<close> is
  a library function, not part of the repository. Its p-value follows section 4.2 of the
  specification: the sum, over all outcome counts \<open>j\<close> in \<open>[0, n]\<close>, of the binomial PMF
  at \<open>j\<close> for every \<open>j\<close> whose PMF value is at most the PMF value at the observed \<open>k\<close>.
  The specification is silent on the library's argument check; it is taken from the
  library's documented contract: \<^verbatim>\<open>ValueError\<close> unless \<open>0 \<le> k \<le> n\<close>, \<open>1 \<le> n\<close> and
  \<open>0 \<le> p \<le> 1\<close>.
\<close>

definition binomtest :: "int \<Rightarrow> int \<Rightarrow> real \<Rightarrow> error + real" where
  "binomtest k n p =
     (if k < 0 \<or> n < 1 \<or> n < k \<or> p < 0 \<or> 1 < p then Inl ValueError
      else Inr (sum_list (map (\<lambda>j. binom_pmf j n p)
                  (filter (\<lambda>j. binom_pmf j n p \<le> binom_pmf k n p) [0..n]))))"

subsection \<open>The module's functions\<close>

definition binomial_p_value :: "int \<Rightarrow> int \<Rightarrow> real \<Rightarrow> error + real" where
  "binomial_p_value n k p =
     (if n \<le> 0 \<or> p \<le> 0 \<or> p \<ge> 1 then Inr 1
      else binomtest k n p)"

definition calculate_likelihood :: "int \<Rightarrow> int \<Rightarrow> real \<Rightarrow> real" where
  "calculate_likelihood n k p =
     (if n \<le> 0 \<or> p \<le> 0 \<or> p \<ge> 1 then 0
      else binom_pmf k n p)"

text \<open>
  \<^verbatim>\<open>1.0 / len(probabilities)\<close> is evaluated before the list is repeated, so an empty
  list raises \<^verbatim>\<open>ZeroDivisionError\<close> in the branch \<^verbatim>\<open>total == 0\<close>.
\<close>

definition calculate_relative_likelihood :: "int \<Rightarrow> int \<Rightarrow> real list \<Rightarrow> error + real list" where
  "calculate_relative_likelihood n k probabilities =
     (let likelihoods = map (calculate_likelihood n k) probabilities;
          total = sum_list likelihoods
      in if total = 0
         then (if length probabilities = 0 then Inl ZeroDivisionError
               else Inr (replicate (length probabilities) (1 / real (length probabilities))))
         else Inr (map (\<lambda>l. l / total) likelihoods))"



text \<open>
  \<^verbatim>\<open>evaluate_setting\<close> returns one of four fixed pairs (symbol, text); the pairs are the
  constructors of \<open>verdict\<close>: \<open>Negative\<close> is the pair with the ballot cross (U+2717),
  \<open>MildlyNegative\<close> the one with the white triangle (U+25B3), \<open>Possible\<close> the one with the
  white circle (U+25CB) and \<open>Likely\<close> the one with the bullseye (U+25CE).
\<close>

datatype verdict = Negative | MildlyNegative | Possible | Likely

definition evaluate_setting :: "real \<Rightarrow> real \<Rightarrow> verdict" where
  "evaluate_setting p_value significance =
     (if p_value < significance / 2 then Negative
      else if p_value < significance then MildlyNegative
      else if p_value < 0.25 then Possible
      else Likely)"

subsection \<open>Parsing a probability\<close>

text \<open>
  A \<^typ>\<open>char\<close> stands for the code point of the same number, so the model covers the
  strings of code points below 256. \<open>is_space\<close> is \<^verbatim>\<open>str.isspace\<close> on this range.
\<close>

definition is_space :: "char \<Rightarrow> bool" where
  "is_space c =
     (let v = (of_char c :: nat)
      in (9 \<le> v \<and> v \<le> 13) \<or> (28 \<le> v \<and> v \<le> 32) \<or> v = 133 \<or> v = 160)"

definition strip :: "string \<Rightarrow> string" where
  "strip s = rev (dropWhile is_space (rev (dropWhile is_space s)))"

text \<open>\<^verbatim>\<open>s.split(sep)\<close> for a separator of one character.\<close>

fun split :: "char \<Rightarrow> string \<Rightarrow> string list" where
  "split sep [] = [[]]"
| "split sep (c # cs) =
     (if c = sep then [] # split sep cs
      else (let ps = split sep cs in (c # hd ps) # tl ps))"

text \<open>
  The builtin \<^verbatim>\<open>float(str)\<close>, following the grammar of the language reference: blanks
  around the text are dropped; then comes an optional sign and either a number (digits
  with single underscores between them, an optional point, an optional exponent) or one
  of the words \<^verbatim>\<open>inf\<close>, \<^verbatim>\<open>infinity\<close>, \<^verbatim>\<open>nan\<close> in any case. Anything else raises
  \<^verbatim>\<open>ValueError\<close>. The value of a number is exact here (no rounding to a double). The
  three words denote floats that are no real numbers: the model answers \<open>NonFinite\<close> for
  them.
\<close>

definition is_digit :: "char \<Rightarrow> bool" where
  "is_digit c = (let v = (of_char c :: nat) in 48 \<le> v \<and> v \<le> 57)"

definition digit_val :: "char \<Rightarrow> int" where
  "digit_val c = of_char c - 48"

fun digitpart :: "string \<Rightarrow> bool" where
  "digitpart [] = False"
| "digitpart [c] = is_digit c"
| "digitpart (c # d # cs) =
     (is_digit c \<and> (if d = CHR ''_'' then digitpart cs else digitpart (d # cs)))"

definition digits_val :: "string \<Rightarrow> int" where
  "digits_val s = foldl (\<lambda>a c. 10 * a + digit_val c) 0 (filter is_digit s)"

definition split_sign :: "string \<Rightarrow> real \<times> string" where
  "split_sign s =
     (case s of
        [] \<Rightarrow> (1, s)
      | c # cs \<Rightarrow> if c = CHR ''-'' then (- 1, cs) else if c = CHR ''+'' then (1, cs) else (1, s))"

definition cut :: "(char \<Rightarrow> bool) \<Rightarrow> string \<Rightarrow> string \<times> string option" where
  "cut P s =
     (takeWhile (\<lambda>c. \<not> P c) s,
      case dropWhile (\<lambda>c. \<not> P c) s of [] \<Rightarrow> None | c # r \<Rightarrow> Some r)"

definition parse_number :: "string \<Rightarrow> (int \<times> nat) option" where
  "parse_number m =
     (case cut (\<lambda>c. c = CHR ''.'') m of
        (ip, None) \<Rightarrow> if digitpart ip then Some (digits_val ip, 0) else None
      | (ip, Some fp) \<Rightarrow>
          if (ip = [] \<or> digitpart ip) \<and> (fp = [] \<or> digitpart fp) \<and> \<not> (ip = [] \<and> fp = [])
          then Some (digits_val (ip @ fp), length (filter is_digit fp))
          else None)"

definition parse_exponent :: "string \<Rightarrow> int option" where
  "parse_exponent e =
     (case e of
        [] \<Rightarrow> None
      | c # cs \<Rightarrow>
          if c = CHR ''-'' then (if digitpart cs then Some (- digits_val cs) else None)
          else if c = CHR ''+'' then (if digitpart cs then Some (digits_val cs) else None)
          else (if digitpart e then Some (digits_val e) else None))"

definition pow10 :: "int \<Rightarrow> real" where
  "pow10 e = (if 0 \<le> e then 10 ^ nat e else 1 / 10 ^ nat (- e))"

definition lower_ascii :: "char \<Rightarrow> char" where
  "lower_ascii c =
     (let v = (of_char c :: nat) in if 65 \<le> v \<and> v \<le> 90 then char_of (v + 32) else c)"

definition py_float :: "string \<Rightarrow> error + real" where
  "py_float s =
     (case split_sign (strip s) of
        (sg, u) \<Rightarrow>
          if map lower_ascii u \<in> set [''inf'', ''infinity'', ''nan''] then Inl NonFinite
          else
            (case cut (\<lambda>c. c = CHR ''e'' \<or> c = CHR ''E'') u of
               (m, None) \<Rightarrow>
                 (case parse_number m of
                    None \<Rightarrow> Inl ValueError
                  | Some (d, f) \<Rightarrow> Inr (sg * (real_of_int d / 10 ^ f)))
             | (m, Some e) \<Rightarrow>
                 (case (parse_number m, parse_exponent e) of
                    (Some (d, f), Some x) \<Rightarrow> Inr (sg * (real_of_int d / 10 ^ f) * pow10 x)
                  | _ \<Rightarrow> Inl ValueError)))"

text \<open>
  \<^verbatim>\<open>parse_probability_input\<close>. \<open>parse_fraction\<close> is the body of the branch
  \<^verbatim>\<open>if '/' in input_str\<close>: its value is \<open>None\<close> when control leaves the branch without
  returning (other than two parts, or a zero denominator) and reaches the decimal branch,
  which is \<open>parse_decimal\<close>. An exception of \<^verbatim>\<open>float\<close> is not caught.
\<close>

definition parse_fraction :: "string \<Rightarrow> (error + real) option" where
  "parse_fraction s =
     (let parts = split (CHR ''/'') s in
      if length parts = 2 then
        (case py_float (parts ! 0) of
           Inl e \<Rightarrow> Some (Inl e)
         | Inr numerator \<Rightarrow>
             (case py_float (parts ! 1) of
                Inl e \<Rightarrow> Some (Inl e)
              | Inr denominator \<Rightarrow>
                  if denominator \<noteq> 0 then Some (Inr (numerator / denominator)) else None))
      else None)"

definition parse_decimal :: "string \<Rightarrow> error + real" where
  "parse_decimal s =
     (case py_float s of
        Inl e \<Rightarrow> Inl e
      | Inr v \<Rightarrow> if v > 1 then Inr (1 / v) else Inr v)"

definition parse_probability_input :: "string \<Rightarrow> error + real" where
  "parse_probability_input input_str =
     (let s = strip input_str in
      if s \<noteq> [] \<and> last s = CHR ''%''
      then (case py_float (butlast s) of Inl e \<Rightarrow> Inl e | Inr v \<Rightarrow> Inr (v / 100))
      else
        (case (if CHR ''/'' \<in> set s then parse_fraction s else None) of
           Some r \<Rightarrow> r
         | None \<Rightarrow> parse_decimal s))"

section \<open>Degenerate inputs of the significance test\<close>

text \<open>
  C6: whenever \<open>n \<le> 0\<close> or \<open>p \<le> 0\<close> or \<open>p \<ge> 1\<close>, \<open>binomial_p_value n k p\<close> returns
  exactly 1.0, whatever \<open>k\<close> is; in particular \<open>binomial_p_value 0 0 0.5\<close> is 1.0.
\<close>

theorem binomial_p_value_degenerate:
  "(n \<le> 0 \<or> p \<le> 0 \<or> p \<ge> 1 \<longrightarrow> binomial_p_value n k p = Inr 1)
   \<and> binomial_p_value 0 0 (1 / 2) = Inr 1"
  by (simp add: binomial_p_value_def)

theorem binomial_p_value_degenerate_witness:
  "((0::int) \<le> 0 \<or> (1 / 2 :: real) \<le> 0 \<or> (1 / 2 :: real) \<ge> 1)
   \<and> binomial_p_value 0 7 (1 / 2) = Inr 1"
  using binomial_p_value_degenerate [of 0 "1 / 2" 7] by simp

section \<open>Relative likelihoods\<close>

lemma sum_list_replicate_real: "sum_list (replicate m (c::real)) = real m * c"
  by (induction m) (simp_all add: algebra_simps)

lemma sum_list_map_divide:
  "(\<Sum>x\<leftarrow>xs. f x / (t::real)) = (\<Sum>x\<leftarrow>xs. f x) / t"
  by (induction xs) (simp_all add: add_divide_distrib)

lemma relative_likelihood_uniform:
  assumes "probabilities \<noteq> []"
    and "sum_list (map (calculate_likelihood n k) probabilities) = 0"
  shows "calculate_relative_likelihood n k probabilities =
           Inr (replicate (length probabilities) (1 / real (length probabilities)))"
  using assms by (simp add: calculate_relative_likelihood_def)

lemma relative_likelihood_normalised:
  assumes "sum_list (map (calculate_likelihood n k) probabilities) \<noteq> 0"
  shows "calculate_relative_likelihood n k probabilities =
           Inr (map (\<lambda>p. calculate_likelihood n k p /
                  sum_list (map (calculate_likelihood n k) probabilities)) probabilities)"
  using assms by (simp add: calculate_relative_likelihood_def Let_def o_def)

text \<open>
  C2: for a nonempty list of probabilities, \<open>calculate_relative_likelihood\<close> returns a
  list of the same length in the same order; entry \<open>i\<close> is the raw likelihood of
  \<open>probabilities ! i\<close> divided by the sum of all raw likelihoods, where the raw likelihood
  is 0 if \<open>n \<le> 0\<close> or the probability is \<open>\<le> 0\<close> or \<open>\<ge> 1\<close> and the binomial PMF at \<open>k\<close>
  otherwise; when that sum is 0 every entry is \<open>1 / len\<close>. The output sums to 1.
\<close>

theorem calculate_relative_likelihood_normalises:
  fixes n k :: int and probabilities :: "real list"
  defines "raw \<equiv> \<lambda>p. if n \<le> 0 \<or> p \<le> 0 \<or> p \<ge> 1 then 0 else binom_pmf k n p"
  defines "tot \<equiv> (\<Sum>p\<leftarrow>probabilities. raw p)"
  assumes nonempty: "probabilities \<noteq> []"
  shows "\<exists>rs. calculate_relative_likelihood n k probabilities = Inr rs
           \<and> length rs = length probabilities
           \<and> (\<forall>i < length probabilities.
                 rs ! i = (if tot = 0 then 1 / real (length probabilities)
                           else raw (probabilities ! i) / tot))
           \<and> sum_list rs = 1"
proof -
  have lk: "calculate_likelihood n k = raw"
    by (rule ext) (simp add: calculate_likelihood_def raw_def)
  show ?thesis
  proof (cases "tot = 0")
    case True
    then have "calculate_relative_likelihood n k probabilities =
        Inr (replicate (length probabilities) (1 / real (length probabilities)))"
      using nonempty by (simp add: relative_likelihood_uniform lk tot_def)
    then show ?thesis using True nonempty
      by (simp add: sum_list_replicate_real)
  next
    case False
    then have "calculate_relative_likelihood n k probabilities =
        Inr (map (\<lambda>p. raw p / tot) probabilities)"
      by (simp add: relative_likelihood_normalised lk tot_def)
    then show ?thesis using False
      by (simp add: sum_list_map_divide tot_def)
  qed
qed

theorem calculate_relative_likelihood_normalises_witness:
  "[1 / 2, 0 :: real] \<noteq> [] \<and> calculate_relative_likelihood 2 1 [1 / 2, 0] = Inr [1, 0]"
proof -
  have "[1 / 2, 0 :: real] \<noteq> []" by simp
  from calculate_relative_likelihood_normalises [OF this, of 2 1]
  have "\<exists>rs. calculate_relative_likelihood 2 1 [1 / 2, 0] = Inr rs" by blast
  moreover have "calculate_relative_likelihood 2 1 [1 / 2, 0] = Inr [1, 0]"
    by code_simp
  ultimately show ?thesis by simp
qed

text \<open>
  C3, as stated: a candidate whose probability is not strictly inside \<open>(0, 1)\<close> never
  receives a positive relative likelihood. It fails on three unset candidates: the total
  likelihood is 0 and the uniform fallback gives each of them \<open>1 / 3\<close>. With one
  participating and one unset candidate and a total of 0 (here \<open>k > n\<close>), the unset
  candidate receives \<open>1 / 2\<close> as well.
\<close>

theorem excluded_candidate_counterexample:
  "calculate_relative_likelihood 100 10 [0, 0, 0] = Inr [1 / 3, 1 / 3, 1 / 3]
   \<and> \<not> (0 < [0, 0, 0 :: real] ! 0 \<and> [0, 0, 0 :: real] ! 0 < 1)
   \<and> 0 < [1 / 3, 1 / 3, 1 / 3 :: real] ! 0
   \<and> calculate_relative_likelihood 1 5 [1 / 2, 0] = Inr [1 / 2, 1 / 2]"
  by (simp add: calculate_relative_likelihood_def calculate_likelihood_def binom_pmf_def)

text \<open>
  C3, amended: a candidate whose probability is not strictly inside \<open>(0, 1)\<close> has raw
  likelihood 0, and its relative likelihood is 0 whenever the total raw likelihood of
  the list is not 0. When the total is 0, every candidate of the list, participating or
  not, receives \<open>1 / len\<close>.
\<close>

theorem excluded_candidate_likelihood:
  assumes "i < length probabilities"
    and "\<not> (0 < probabilities ! i \<and> probabilities ! i < 1)"
  shows "calculate_likelihood n k (probabilities ! i) = 0
         \<and> (sum_list (map (calculate_likelihood n k) probabilities) \<noteq> 0 \<longrightarrow>
              (\<exists>rs. calculate_relative_likelihood n k probabilities = Inr rs
                    \<and> length rs = length probabilities \<and> rs ! i = 0))
         \<and> (sum_list (map (calculate_likelihood n k) probabilities) = 0 \<longrightarrow>
              calculate_relative_likelihood n k probabilities =
                Inr (replicate (length probabilities) (1 / real (length probabilities))))"
proof -
  have zero: "calculate_likelihood n k (probabilities ! i) = 0"
    using assms(2) by (auto simp add: calculate_likelihood_def)
  have nonempty: "probabilities \<noteq> []"
    using assms(1) by auto
  show ?thesis
    using zero nonempty assms(1)
    by (simp add: relative_likelihood_uniform relative_likelihood_normalised)
qed

theorem excluded_candidate_likelihood_witness:
  "(1::nat) < length [1 / 2, 0 :: real]
   \<and> \<not> (0 < [1 / 2, 0 :: real] ! 1 \<and> [1 / 2, 0 :: real] ! 1 < 1)
   \<and> sum_list (map (calculate_likelihood 2 1) [1 / 2, 0]) \<noteq> 0
   \<and> (\<exists>rs. calculate_relative_likelihood 2 1 [1 / 2, 0] = Inr rs \<and> rs ! 1 = 0)
   \<and> sum_list (map (calculate_likelihood 2 1) [0, 2]) = 0
   \<and> calculate_relative_likelihood 2 1 [0, 2] = Inr [1 / 2, 1 / 2]"
proof -
  have a: "(1::nat) < length [1 / 2, 0 :: real]" by simp
  have b: "\<not> (0 < [1 / 2, 0 :: real] ! 1 \<and> [1 / 2, 0 :: real] ! 1 < 1)" by simp
  have c: "sum_list (map (calculate_likelihood 2 1) [1 / 2, 0]) \<noteq> 0"
    by code_simp
  from excluded_candidate_likelihood [OF a b, of 2 1] c
  have first: "\<exists>rs. calculate_relative_likelihood 2 1 [1 / 2, 0] = Inr rs
          \<and> length rs = length [1 / 2, 0 :: real] \<and> rs ! 1 = 0"
    by blast
  have d: "(0::nat) < length [0, 2 :: real]" by simp
  have e: "\<not> (0 < [0, 2 :: real] ! 0 \<and> [0, 2 :: real] ! 0 < 1)" by simp
  have f: "sum_list (map (calculate_likelihood 2 1) [0, 2]) = 0"
    by (simp add: calculate_likelihood_def)
  from excluded_candidate_likelihood [OF d e, of 2 1] f
  have "calculate_relative_likelihood 2 1 [0, 2] =
      Inr (replicate (length [0, 2 :: real]) (1 / real (length [0, 2 :: real])))"
    by blast
  then have second: "calculate_relative_likelihood 2 1 [0, 2] = Inr [1 / 2, 1 / 2]"
    by (simp add: numeral_2_eq_2)
  show ?thesis using a b c first f second by blast
qed

text \<open>
  C10: \<open>calculate_relative_likelihood\<close> returns a list for every nonempty list of
  probabilities; for the empty list the total is 0 and the fallback divides by
  \<open>len(probabilities) = 0\<close>, so the call raises \<^verbatim>\<open>ZeroDivisionError\<close>.
\<close>

theorem calculate_relative_likelihood_total_on_nonempty:
  "(probabilities \<noteq> [] \<longrightarrow> (\<exists>rs. calculate_relative_likelihood n k probabilities = Inr rs))
   \<and> calculate_relative_likelihood n k [] = Inl ZeroDivisionError"
  by (simp add: calculate_relative_likelihood_def Let_def)

theorem calculate_relative_likelihood_total_on_nonempty_witness:
  "[1 / 3 :: real] \<noteq> []
   \<and> (\<exists>rs. calculate_relative_likelihood 3 1 [1 / 3] = Inr rs)
   \<and> calculate_relative_likelihood 3 1 [] = Inl ZeroDivisionError"
  using calculate_relative_likelihood_total_on_nonempty [of "[1 / 3]" 3 1] by simp

section \<open>Verdicts\<close>

text \<open>
  C4, as stated: for every p-value and every significance the verdict is \<open>Likely\<close> iff
  \<open>p_value \<ge> 0.25\<close> and \<open>Possible\<close> iff \<open>significance \<le> p_value < 0.25\<close>. The first fails
  for a significance above 0.25, the second for a negative significance.
\<close>

theorem evaluate_setting_counterexample:
  "\<not> (evaluate_setting (3 / 8) (1 / 2) = Likely \<longleftrightarrow> (3 / 8 :: real) \<ge> 0.25)
   \<and> \<not> (evaluate_setting (- (3 / 4)) (- 1) = Possible
          \<longleftrightarrow> (- 1 :: real) \<le> - (3 / 4) \<and> (- (3 / 4) :: real) < 0.25)"
  by (simp add: evaluate_setting_def)

text \<open>
  C4, amended: for every p-value and every significance, the verdict is \<open>Negative\<close> iff
  \<open>p_value < significance / 2\<close> and \<open>MildlyNegative\<close> iff
  \<open>significance / 2 \<le> p_value < significance\<close>; when \<open>0 \<le> significance\<close> it is \<open>Possible\<close>
  iff \<open>significance \<le> p_value < 0.25\<close>; when \<open>significance \<le> 0.25\<close> it is \<open>Likely\<close> iff
  \<open>p_value \<ge> 0.25\<close>. The boundary 0.25 is a constant.
\<close>

theorem evaluate_setting_thresholds:
  "(evaluate_setting p s = Negative \<longleftrightarrow> p < s / 2)
   \<and> (evaluate_setting p s = MildlyNegative \<longleftrightarrow> s / 2 \<le> p \<and> p < s)
   \<and> (0 \<le> s \<longrightarrow> (evaluate_setting p s = Possible \<longleftrightarrow> s \<le> p \<and> p < 0.25))
   \<and> (s \<le> 0.25 \<longrightarrow> (evaluate_setting p s = Likely \<longleftrightarrow> p \<ge> 0.25))"
  by (auto simp add: evaluate_setting_def)

theorem evaluate_setting_thresholds_witness:
  "(0 :: real) \<le> 1 / 20 \<and> (1 / 20 :: real) \<le> 0.25
   \<and> evaluate_setting (3 / 100) (1 / 20) = MildlyNegative
   \<and> evaluate_setting (1 / 10) (1 / 20) = Possible
   \<and> evaluate_setting (3 / 10) (1 / 20) = Likely"
  using evaluate_setting_thresholds [of "3 / 100" "1 / 20"]
    evaluate_setting_thresholds [of "1 / 10" "1 / 20"]
    evaluate_setting_thresholds [of "3 / 10" "1 / 20"]
  by simp

section \<open>Parsing a probability\<close>

lemma split_at_separator:
  "sep \<notin> set a \<Longrightarrow> split sep (a @ sep # b) = a # split sep b"
  by (induction a) (auto simp add: Let_def)

lemma split_without_separator: "sep \<notin> set b \<Longrightarrow> split sep b = [b]"
  by (induction b) (auto simp add: Let_def)

lemma parse_percent:
  assumes "strip s = t @ ''%''"
  shows "parse_probability_input s =
           (case py_float t of Inl e \<Rightarrow> Inl e | Inr v \<Rightarrow> Inr (v / 100))"
  using assms by (simp add: parse_probability_input_def)

lemma parse_two_parts:
  assumes "strip s = a @ ''/'' @ b"
    and "CHR ''/'' \<notin> set a" and "CHR ''/'' \<notin> set b"
    and "b = [] \<or> last b \<noteq> CHR ''%''"
    and "py_float a = Inr x" and "py_float b = Inr y" and "y \<noteq> 0"
  shows "parse_probability_input s = Inr (x / y)"
proof -
  have parts: "split (CHR ''/'') (strip s) = [a, b]"
    using assms(1-3) by (simp add: split_at_separator split_without_separator)
  have no_percent: "\<not> (strip s \<noteq> [] \<and> last (strip s) = CHR ''%'')"
    using assms(1,4) by auto
  have "parse_fraction (strip s) = Some (Inr (x / y))"
    using assms(5-7) by (simp add: parse_fraction_def parts)
  then show ?thesis
    using no_percent assms(1) by (simp add: parse_probability_input_def Let_def)
qed

lemma parse_plain_decimal:
  assumes "strip s = [] \<or> last (strip s) \<noteq> CHR ''%''"
    and "CHR ''/'' \<notin> set (strip s)"
    and "py_float (strip s) = Inr v"
  shows "parse_probability_input s = Inr (if v > 1 then 1 / v else v)"
  using assms by (auto simp add: parse_probability_input_def Let_def parse_decimal_def)

lemma parse_example_fraction: "parse_probability_input ''1/6.5'' = Inr (2 / 13)"
  by code_simp

lemma parse_example_denominator: "parse_probability_input ''6.5'' = Inr (2 / 13)"
  by code_simp

lemma parse_example_percent: "parse_probability_input ''15.3846%'' = Inr (76923 / 500000)"
  by code_simp

lemma parse_example_decimal: "parse_probability_input ''0.2'' = Inr (1 / 5)"
  by code_simp

text \<open>
  C7: the rules of \<open>parse_probability_input\<close> apply in priority order to the trimmed
  input. A trailing percent sign divides the numeric prefix by 100; otherwise a text
  \<open>a/b\<close> with two numeric parts and \<open>b \<noteq> 0\<close> gives \<open>a / b\<close>; otherwise a plain decimal
  \<open>v\<close> gives \<open>1 / v\<close> when \<open>v > 1\<close> and \<open>v\<close> when \<open>v \<le> 1\<close>. So the inputs \<open>1/6.5\<close>,
  \<open>6.5\<close> and \<open>15.3846%\<close> agree within \<open>1e-3\<close>, all within \<open>1e-3\<close> of 0.15385, and
  the input \<open>0.2\<close> gives 0.2.
\<close>

theorem parse_probability_input_rules:
  "(strip s = t @ ''%'' \<longrightarrow>
      parse_probability_input s =
        (case py_float t of Inl e \<Rightarrow> Inl e | Inr v \<Rightarrow> Inr (v / 100)))
   \<and> (strip s = a @ ''/'' @ b \<and> CHR ''/'' \<notin> set a \<and> CHR ''/'' \<notin> set b
        \<and> (b = [] \<or> last b \<noteq> CHR ''%'')
        \<and> py_float a = Inr x \<and> py_float b = Inr y \<and> y \<noteq> 0 \<longrightarrow>
      parse_probability_input s = Inr (x / y))
   \<and> ((strip s = [] \<or> last (strip s) \<noteq> CHR ''%'') \<and> CHR ''/'' \<notin> set (strip s)
        \<and> py_float (strip s) = Inr w \<longrightarrow>
      parse_probability_input s = Inr (if w > 1 then 1 / w else w))
   \<and> parse_probability_input ''1/6.5'' = Inr (2 / 13)
   \<and> parse_probability_input ''6.5'' = Inr (2 / 13)
   \<and> parse_probability_input ''15.3846%'' = Inr (76923 / 500000)
   \<and> \<bar>2 / 13 - 76923 / 500000 :: real\<bar> < 1 / 1000
   \<and> \<bar>2 / 13 - 0.15385 :: real\<bar> < 1 / 1000
   \<and> \<bar>76923 / 500000 - 0.15385 :: real\<bar> < 1 / 1000
   \<and> parse_probability_input ''0.2'' = Inr 0.2"
proof -
  have percent: "strip s = t @ ''%'' \<longrightarrow>
      parse_probability_input s =
        (case py_float t of Inl e \<Rightarrow> Inl e | Inr v \<Rightarrow> Inr (v / 100))"
    by (simp add: parse_percent)
  have fraction: "strip s = a @ ''/'' @ b \<and> CHR ''/'' \<notin> set a \<and> CHR ''/'' \<notin> set b
        \<and> (b = [] \<or> last b \<noteq> CHR ''%'')
        \<and> py_float a = Inr x \<and> py_float b = Inr y \<and> y \<noteq> 0 \<longrightarrow>
      parse_probability_input s = Inr (x / y)"
    using parse_two_parts [of s a b x y] by blast
  have decimal: "(strip s = [] \<or> last (strip s) \<noteq> CHR ''%'') \<and> CHR ''/'' \<notin> set (strip s)
        \<and> py_float (strip s) = Inr w \<longrightarrow>
      parse_probability_input s = Inr (if w > 1 then 1 / w else w)"
    using parse_plain_decimal [of s w] by blast
  have close: "\<bar>2 / 13 - 76923 / 500000 :: real\<bar> < 1 / 1000"
    "\<bar>2 / 13 - 0.15385 :: real\<bar> < 1 / 1000"
    "\<bar>76923 / 500000 - 0.15385 :: real\<bar> < 1 / 1000"
    by simp_all
  have fifth: "parse_probability_input ''0.2'' = Inr 0.2"
    by (simp add: parse_example_decimal)
  show ?thesis
    by (intro conjI)
      (fact percent fraction decimal close fifth parse_example_fraction
        parse_example_denominator parse_example_percent)+
qed

theorem parse_probability_input_rules_witness:
  "strip '' 50% '' = ''50'' @ ''%''
   \<and> parse_probability_input '' 50% '' = Inr (1 / 2)
   \<and> parse_probability_input ''3/4'' = Inr (3 / 4)
   \<and> parse_probability_input ''4'' = Inr (1 / 4)"
proof -
  have a: "strip '' 50% '' = ''50'' @ ''%''" by code_simp
  have b: "py_float ''50'' = Inr 50" by code_simp
  from parse_probability_input_rules [where s = "'' 50% ''" and t = "''50''"] a b
  have percent: "parse_probability_input '' 50% '' = Inr (1 / 2)" by simp
  have c: "strip ''3/4'' = ''3'' @ ''/'' @ ''4''" by code_simp
  have d: "py_float ''3'' = Inr 3" "py_float ''4'' = Inr 4" by code_simp+
  have "CHR ''/'' \<notin> set ''3'' \<and> CHR ''/'' \<notin> set ''4''
      \<and> (''4'' = [] \<or> last ''4'' \<noteq> CHR ''%'') \<and> (4::real) \<noteq> 0"
    by simp
  with parse_probability_input_rules
    [where s = "''3/4''" and a = "''3''" and b = "''4''" and x = 3 and y = 4] c d
  have fraction: "parse_probability_input ''3/4'' = Inr (3 / 4)" by blast
  have e: "strip ''4'' = ''4''" by code_simp
  have "(strip ''4'' = [] \<or> last (strip ''4'') \<noteq> CHR ''%'') \<and> CHR ''/'' \<notin> set (strip ''4'')
      \<and> py_float (strip ''4'') = Inr 4"
    using d(2) by (simp add: e)
  with parse_probability_input_rules [where s = "''4''" and w = 4]
  have "parse_probability_input ''4'' = Inr (if (4::real) > 1 then 1 / 4 else 4)" by blast
  then have decimal: "parse_probability_input ''4'' = Inr (1 / 4)" by simp
  show ?thesis using a percent fraction decimal by simp
qed

section \<open>Confidence interval and expected range\<close>


section \<open>The exact two-sided test\<close>

lemma binom_pmf_nonneg: "0 \<le> p \<Longrightarrow> p \<le> 1 \<Longrightarrow> 0 \<le> binom_pmf k n p"
  by (simp add: binom_pmf_def)

lemma binom_pmf_int: "binom_pmf (int j) (int N) p =
    (if j \<le> N then real (N choose j) * p ^ j * (1 - p) ^ (N - j) else 0)"
  by (simp add: binom_pmf_def)

lemma binom_pmf_sum:
  assumes "0 \<le> n"
  shows "(\<Sum>j\<in>{0..n}. binom_pmf j n p) = 1"
proof -
  obtain N where N: "n = int N"
    using assms nonneg_int_cases by blast
  have "(\<Sum>j\<in>{0..n}. binom_pmf j n p) = (\<Sum>j\<in>int ` {0..N}. binom_pmf j (int N) p)"
    by (simp add: N image_int_atLeastAtMost)
  also have "\<dots> = (\<Sum>j\<in>{0..N}. binom_pmf (int j) (int N) p)"
    by (simp add: sum.reindex o_def)
  also have "\<dots> = (\<Sum>j\<le>N. real (N choose j) * p ^ j * (1 - p) ^ (N - j))"
    by (simp add: binom_pmf_int atMost_atLeast0)
  also have "\<dots> = (p + (1 - p)) ^ N"
    by (simp only: binomial_ring)
  finally show ?thesis by simp
qed

lemma filtered_sum_list:
  "sum_list (map f (filter P [0..n])) = sum f {j. 0 \<le> j \<and> j \<le> n \<and> P j}"
proof -
  have "sum_list (map f (filter P [0..n])) = sum f (set (filter P [0..n]))"
    by (rule sum_list_distinct_conv_sum_set) simp
  also have "set (filter P [0..n]) = {j. 0 \<le> j \<and> j \<le> n \<and> P j}"
    by auto
  finally show ?thesis .
qed

lemma choose_step: "j < N \<Longrightarrow> Suc j * (N choose Suc j) = (N - j) * (N choose j)"
  using binomial_absorption [of j N] binomial_absorb_comp [of N j] by simp

lemma pmf_step:
  assumes "j < N"
  shows "binom_pmf (int (Suc j)) (int N) p * (real (Suc j) * (1 - p)) =
         binom_pmf (int j) (int N) p * (real (N - j) * p)"
proof -
  have c: "real (Suc j) * real (N choose Suc j) = real (N - j) * real (N choose j)"
    using choose_step [OF assms] by (metis of_nat_mult)
  have "N - j = Suc (N - Suc j)"
    using assms by simp
  then have e: "(1 - p) ^ (N - j) = (1 - p) * (1 - p) ^ (N - Suc j)"
    by (simp only: power_Suc)
  have s: "binom_pmf (int (Suc j)) (int N) p =
      real (N choose Suc j) * p ^ Suc j * (1 - p) ^ (N - Suc j)"
    using assms by (subst binom_pmf_int) simp
  have t: "binom_pmf (int j) (int N) p = real (N choose j) * p ^ j * (1 - p) ^ (N - j)"
    using assms by (subst binom_pmf_int) simp
  have "binom_pmf (int (Suc j)) (int N) p * (real (Suc j) * (1 - p)) =
      (real (Suc j) * real (N choose Suc j)) * (p * p ^ j) * ((1 - p) * (1 - p) ^ (N - Suc j))"
    unfolding s by (simp add: mult_ac)
  also have "\<dots> = (real (N - j) * real (N choose j)) * (p * p ^ j) * (1 - p) ^ (N - j)"
    unfolding c e ..
  also have "\<dots> = binom_pmf (int j) (int N) p * (real (N - j) * p)"
    unfolding t by (simp add: mult_ac)
  finally show ?thesis .
qed

lemma pmf_step_down:
  assumes "j < N" "0 < p" "p < 1" "real N * p \<le> real j"
  shows "binom_pmf (int (Suc j)) (int N) p \<le> binom_pmf (int j) (int N) p"
proof -
  let ?a = "binom_pmf (int (Suc j)) (int N) p" and ?b = "binom_pmf (int j) (int N) p"
  have b0: "0 \<le> ?b" using assms by (simp add: binom_pmf_nonneg)
  have "real (N - j) * p = real N * p - real j * p"
    using assms(1) by (simp add: of_nat_diff algebra_simps)
  also have "\<dots> \<le> real (Suc j) * (1 - p)"
    using assms(3,4) by (simp add: algebra_simps)
  finally have "?b * (real (N - j) * p) \<le> ?b * (real (Suc j) * (1 - p))"
    using b0 by (simp add: mult_left_mono)
  then have "?a * (real (Suc j) * (1 - p)) \<le> ?b * (real (Suc j) * (1 - p))"
    by (simp only: pmf_step [OF assms(1)])
  moreover have "0 < real (Suc j) * (1 - p)"
    using assms(3) by simp
  ultimately show ?thesis
    by (simp only: mult_le_cancel_right_pos)
qed

lemma pmf_step_up:
  assumes "j < N" "0 < p" "p < 1" "real (Suc j) \<le> real N * p"
  shows "binom_pmf (int j) (int N) p \<le> binom_pmf (int (Suc j)) (int N) p"
proof -
  let ?a = "binom_pmf (int (Suc j)) (int N) p" and ?b = "binom_pmf (int j) (int N) p"
  have b0: "0 \<le> ?b" using assms by (simp add: binom_pmf_nonneg)
  have "real (Suc j) * (1 - p) \<le> real N * p - real j * p"
    using assms(2,3,4) by (simp add: algebra_simps)
  also have "\<dots> = real (N - j) * p"
    using assms(1) by (simp add: of_nat_diff algebra_simps)
  finally have "?b * (real (Suc j) * (1 - p)) \<le> ?b * (real (N - j) * p)"
    using b0 by (simp add: mult_left_mono)
  then have "?b * (real (Suc j) * (1 - p)) \<le> ?a * (real (Suc j) * (1 - p))"
    by (simp only: pmf_step [OF assms(1)])
  moreover have "0 < real (Suc j) * (1 - p)"
    using assms(3) by simp
  ultimately show ?thesis
    by (simp only: mult_le_cancel_right_pos)
qed


lemma pmf_upper_tail:
  assumes "1 \<le> n" "0 < p" "p < 1"
    and "real_of_int n * p \<le> real_of_int k1" "k1 \<le> k2"
  shows "k2 \<le> n \<longrightarrow> binom_pmf k2 n p \<le> binom_pmf k1 n p"
  using assms(5)
proof (induction k2 rule: int_ge_induct)
  case base
  show ?case by simp
next
  case (step i)
  show ?case
  proof
    assume le: "i + 1 \<le> n"
    have "0 < real_of_int n * p" using assms(1,2) by simp
    then have "0 < real_of_int k1" using assms(4) by linarith
    then have i0: "0 \<le> i" using step.hyps by linarith
    obtain j N where j: "i = int j" and N: "n = int N"
      using i0 assms(1) by (metis nonneg_int_cases order_trans zero_le_one)
    have jN: "j < N" using le j N by simp
    have "real N * p \<le> real j"
      using assms(4) step.hyps j N by simp
    then have "binom_pmf (int (Suc j)) (int N) p \<le> binom_pmf (int j) (int N) p"
      using jN assms(2,3) by (intro pmf_step_down)
    moreover have "int (Suc j) = i + 1" using j by simp
    ultimately have "binom_pmf (i + 1) n p \<le> binom_pmf i n p"
      using j N by (simp only:)
    moreover have "binom_pmf i n p \<le> binom_pmf k1 n p"
      using step.IH le by simp
    ultimately show "binom_pmf (i + 1) n p \<le> binom_pmf k1 n p"
      by (rule order_trans)
  qed
qed

lemma pmf_lower_tail:
  assumes "1 \<le> n" "0 < p" "p < 1" "0 \<le> k2" "k2 \<le> k1"
  shows "real_of_int k1 \<le> real_of_int n * p \<longrightarrow> binom_pmf k2 n p \<le> binom_pmf k1 n p"
  using assms(5)
proof (induction k1 rule: int_ge_induct)
  case base
  show ?case by simp
next
  case (step i)
  show ?case
  proof
    assume le: "real_of_int (i + 1) \<le> real_of_int n * p"
    have i0: "0 \<le> i" using step.hyps assms(4) by simp
    obtain j N where j: "i = int j" and N: "n = int N"
      using i0 assms(1) by (metis nonneg_int_cases order_trans zero_le_one)
    have "real_of_int n * p < real_of_int n"
      using assms(1,3) by simp
    then have "real_of_int (i + 1) < real_of_int n" using le by linarith
    then have jN: "j < N" using j N by simp
    have "real (Suc j) \<le> real N * p"
      using le j N by simp
    then have "binom_pmf (int j) (int N) p \<le> binom_pmf (int (Suc j)) (int N) p"
      using jN assms(2,3) by (intro pmf_step_up)
    moreover have "int (Suc j) = i + 1" using j by simp
    ultimately have "binom_pmf i n p \<le> binom_pmf (i + 1) n p"
      using j N by (simp only:)
    moreover have "binom_pmf k2 n p \<le> binom_pmf i n p"
      using step.IH le by simp
    ultimately show "binom_pmf k2 n p \<le> binom_pmf (i + 1) n p"
      by linarith
  qed
qed

lemma binomial_p_value_sum:
  assumes "1 \<le> n" "0 \<le> k" "k \<le> n" "0 < p" "p < 1"
  shows "binomial_p_value n k p =
    Inr (\<Sum>j\<in>{j. 0 \<le> j \<and> j \<le> n \<and> binom_pmf j n p \<le> binom_pmf k n p}. binom_pmf j n p)"
  using assms by (simp add: binomial_p_value_def binomtest_def filtered_sum_list)

lemma tail_sum_bounds:
  assumes "0 \<le> n" "0 \<le> p" "p \<le> 1"
  shows "0 \<le> (\<Sum>j\<in>{j. 0 \<le> j \<and> j \<le> n \<and> binom_pmf j n p \<le> c}. binom_pmf j n p)"
    and "(\<Sum>j\<in>{j. 0 \<le> j \<and> j \<le> n \<and> binom_pmf j n p \<le> c}. binom_pmf j n p) \<le> 1"
proof -
  let ?A = "{j. 0 \<le> j \<and> j \<le> n \<and> binom_pmf j n p \<le> c}"
  show "0 \<le> (\<Sum>j\<in>?A. binom_pmf j n p)"
    using assms by (intro sum_nonneg binom_pmf_nonneg)
  have "(\<Sum>j\<in>?A. binom_pmf j n p) \<le> (\<Sum>j\<in>{0..n}. binom_pmf j n p)"
    using assms by (intro sum_mono2) (auto simp add: binom_pmf_nonneg)
  then show "(\<Sum>j\<in>?A. binom_pmf j n p) \<le> 1"
    using assms(1) by (simp add: binom_pmf_sum)
qed

lemma tail_sum_mono:
  assumes "0 \<le> p" "p \<le> 1" "c \<le> d"
  shows "(\<Sum>j\<in>{j. 0 \<le> j \<and> j \<le> n \<and> binom_pmf j n p \<le> c}. binom_pmf j n p)
       \<le> (\<Sum>j\<in>{j. 0 \<le> j \<and> j \<le> n \<and> binom_pmf j n p \<le> d}. binom_pmf j n p)"
proof (rule sum_mono2)
  have "{j. 0 \<le> j \<and> j \<le> n \<and> binom_pmf j n p \<le> d} \<subseteq> {0..n}" by auto
  then show "finite {j. 0 \<le> j \<and> j \<le> n \<and> binom_pmf j n p \<le> d}"
    by (rule finite_subset) simp
  show "{j. 0 \<le> j \<and> j \<le> n \<and> binom_pmf j n p \<le> c}
      \<subseteq> {j. 0 \<le> j \<and> j \<le> n \<and> binom_pmf j n p \<le> d}"
    using assms(3) by auto
  show "\<And>b. b \<in> {j. 0 \<le> j \<and> j \<le> n \<and> binom_pmf j n p \<le> d} -
      {j. 0 \<le> j \<and> j \<le> n \<and> binom_pmf j n p \<le> c} \<Longrightarrow> 0 \<le> binom_pmf b n p"
    using assms(1,2) by (simp add: binom_pmf_nonneg)
qed

text \<open>
  C1: for \<open>n \<ge> 1\<close>, \<open>0 \<le> k \<le> n\<close> and \<open>0 < p < 1\<close>, \<open>binomial_p_value n k p\<close> is the
  exact two-sided p-value: the sum, over the outcome counts \<open>j\<close> in \<open>[0, n]\<close> whose PMF
  value is at most the PMF value at \<open>k\<close>, of the binomial PMF at \<open>j\<close>; and it lies in
  \<open>[0, 1]\<close>.
\<close>

theorem binomial_p_value_exact:
  assumes "1 \<le> n" "0 \<le> k" "k \<le> n" "0 < p" "p < 1"
  shows "binomial_p_value n k p =
      Inr (\<Sum>j\<in>{j. 0 \<le> j \<and> j \<le> n \<and> binom_pmf j n p \<le> binom_pmf k n p}. binom_pmf j n p)
    \<and> 0 \<le> (\<Sum>j\<in>{j. 0 \<le> j \<and> j \<le> n \<and> binom_pmf j n p \<le> binom_pmf k n p}. binom_pmf j n p)
    \<and> (\<Sum>j\<in>{j. 0 \<le> j \<and> j \<le> n \<and> binom_pmf j n p \<le> binom_pmf k n p}. binom_pmf j n p) \<le> 1"
  using assms binomial_p_value_sum [OF assms]
    tail_sum_bounds [of n p "binom_pmf k n p"] by simp

theorem binomial_p_value_exact_witness:
  "(1::int) \<le> 4 \<and> (0::int) \<le> 1 \<and> (1::int) \<le> 4 \<and> (0::real) < 1 / 2 \<and> (1 / 2 :: real) < 1
   \<and> binomial_p_value 4 1 (1 / 2) = Inr (5 / 8)
   \<and> (\<Sum>j\<in>{j. 0 \<le> j \<and> j \<le> 4 \<and> binom_pmf j 4 (1 / 2) \<le> binom_pmf 1 4 (1 / 2)}.
         binom_pmf j 4 (1 / 2)) = 5 / 8"
proof -
  have v: "binomial_p_value 4 1 (1 / 2) = Inr (5 / 8)" by code_simp
  have "binomial_p_value 4 1 (1 / 2) =
      Inr (\<Sum>j\<in>{j. 0 \<le> j \<and> j \<le> 4 \<and> binom_pmf j 4 (1 / 2) \<le> binom_pmf 1 4 (1 / 2)}.
         binom_pmf j 4 (1 / 2))"
    using binomial_p_value_exact [of 4 1 "1 / 2"] by simp
  then show ?thesis using v by simp
qed

text \<open>
  C5: for \<open>n \<ge> 1\<close> and \<open>0 < p < 1\<close>, the p-value does not increase as \<open>k\<close> moves away
  from \<open>n * p\<close> inside one tail: for \<open>n * p \<le> k1 \<le> k2 \<le> n\<close>, and for
  \<open>0 \<le> k2 \<le> k1 \<le> n * p\<close>, the p-value at \<open>k2\<close> is at most the p-value at \<open>k1\<close>.
\<close>

theorem binomial_p_value_monotone_in_tail:
  assumes "1 \<le> n" "0 < p" "p < 1"
    and "(real_of_int n * p \<le> real_of_int k1 \<and> k1 \<le> k2 \<and> k2 \<le> n)
       \<or> (0 \<le> k2 \<and> k2 \<le> k1 \<and> real_of_int k1 \<le> real_of_int n * p)"
  shows "\<exists>v1 v2. binomial_p_value n k1 p = Inr v1 \<and> binomial_p_value n k2 p = Inr v2
           \<and> v2 \<le> v1"
proof -
  have pos: "0 < real_of_int n * p" and below: "real_of_int n * p < real_of_int n"
    using assms(1-3) by simp_all
  have r1: "0 \<le> k1 \<and> k1 \<le> n" and r2: "0 \<le> k2 \<and> k2 \<le> n"
    using assms(4) pos below by linarith+
  have "binom_pmf k2 n p \<le> binom_pmf k1 n p"
    using assms(4) pmf_upper_tail [of n p k1 k2] pmf_lower_tail [of n p k2 k1] assms(1-3)
    by blast
  then have "(\<Sum>j\<in>{j. 0 \<le> j \<and> j \<le> n \<and> binom_pmf j n p \<le> binom_pmf k2 n p}. binom_pmf j n p)
       \<le> (\<Sum>j\<in>{j. 0 \<le> j \<and> j \<le> n \<and> binom_pmf j n p \<le> binom_pmf k1 n p}. binom_pmf j n p)"
    using assms(2,3) by (intro tail_sum_mono) simp_all
  then show ?thesis
    using binomial_p_value_sum [of n k1 p] binomial_p_value_sum [of n k2 p] assms(1-3) r1 r2
    by simp
qed

theorem binomial_p_value_monotone_in_tail_witness:
  "(1::int) \<le> 4 \<and> (0::real) < 1 / 2 \<and> (1 / 2 :: real) < 1
   \<and> real_of_int 4 * (1 / 2) \<le> real_of_int 2 \<and> (2::int) \<le> 3 \<and> (3::int) \<le> 4
   \<and> binomial_p_value 4 2 (1 / 2) = Inr 1
   \<and> binomial_p_value 4 3 (1 / 2) = Inr (5 / 8)
   \<and> (\<exists>v1 v2. binomial_p_value 4 2 (1 / 2) = Inr v1 \<and> binomial_p_value 4 3 (1 / 2) = Inr v2
         \<and> v2 \<le> v1)
   \<and> (\<exists>v1 v2. binomial_p_value 4 2 (1 / 2) = Inr v1 \<and> binomial_p_value 4 0 (1 / 2) = Inr v2
         \<and> v2 \<le> v1)"
proof -
  have a: "binomial_p_value 4 2 (1 / 2) = Inr 1" by code_simp
  have b: "binomial_p_value 4 3 (1 / 2) = Inr (5 / 8)" by code_simp
  have upper: "\<exists>v1 v2. binomial_p_value 4 2 (1 / 2) = Inr v1
         \<and> binomial_p_value 4 3 (1 / 2) = Inr v2 \<and> v2 \<le> v1"
    using binomial_p_value_monotone_in_tail [of 4 "1 / 2" 2 3] by simp
  have lower: "\<exists>v1 v2. binomial_p_value 4 2 (1 / 2) = Inr v1
         \<and> binomial_p_value 4 0 (1 / 2) = Inr v2 \<and> v2 \<le> v1"
    using binomial_p_value_monotone_in_tail [of 4 "1 / 2" 2 0] by simp
  show ?thesis using a b upper lower by simp
qed

section \<open>Observed counts outside the range of the trials\<close>

text \<open>
  C9 asks for an ordinary return value when \<open>k\<close> is outside \<open>[0, n]\<close>. The guard of
  \<open>binomial_p_value\<close> looks at \<open>n\<close> and \<open>p\<close> only, so for \<open>n = 10\<close>, \<open>p = 0.5\<close> and
  \<open>k = 11\<close> or \<open>k = -1\<close> the call reaches the library test, which rejects both.
\<close>

theorem binomial_p_value_k_out_of_range:
  "binomial_p_value 10 11 (1 / 2) = Inl ValueError
   \<and> binomial_p_value 10 (- 1) (1 / 2) = Inl ValueError"
  by (simp add: binomial_p_value_def binomtest_def)

end
